theory Spec2Isabelle
  imports Main
begin

section \<open>Data model (inventory/models.py)\<close>

text \<open>
  The rows of the relational store, one record per Django model. Python integers are
  unbounded, so every integer value is an \<open>int\<close>; what an integer column can hold is
  bounded by the store (see \<open>IntegerField_range\<close> below). Primary keys are \<open>nat\<close>.
  Of \<open>Medicine\<close> only the columns that a sale reads or writes and the prices are kept
  (code, brand, category, dates and the free-text columns are never touched by a sale).
  \<open>Medicine\<close> has no column \<open>is_active\<close>: models.py declares none.
\<close>

record profile =
  role :: string
  permissions :: "string list"

text \<open>\<open>profile = None\<close> stands for \<open>not hasattr(user, 'profile')\<close>.\<close>

record user =
  user_pk :: nat
  is_authenticated :: bool
  profile :: "profile option"

record medicine =
  name :: string
  quantity :: int
  purchase_price :: int
  selling_price :: int

record sale =
  created_at :: nat
  created_by :: "nat option"
  delivery_fee :: int
  total_amount :: int
  customer_name :: string
  customer_phone :: string
  customer_address :: string

record sale_item =
  item_sale :: nat
  item_medicine :: nat
  item_quantity :: int
  price_at_sale :: int

text \<open>
  The store: one table per model. \<open>sale_items\<close> is a list, in insertion order;
  \<open>next_sale_pk\<close> is the auto-increment sequence of the \<open>Sale\<close> table.
  \<open>integer_max\<close> is the largest value that an integer column of the store holds, a
  parameter of the store that no request changes: \<open>2 ^ 63 - 1\<close> with SQLite, the
  store of a project set up with the defaults of Django.
\<close>

record database =
  medicines :: "nat \<rightharpoonup> medicine"
  sales :: "nat \<rightharpoonup> sale"
  sale_items :: "sale_item list"
  next_sale_pk :: nat
  integer_max :: nat

text \<open>Exceptions that the view can meet, as values.\<close>

datatype error =
  Http404
  | DoesNotExist
  | ValueError string
  | IntegrityError
  | OverflowError
  | DatabaseError
  | FieldError

section \<open>The request\<close>

text \<open>
  One entry of \<open>data['cart']\<close>: the keys \<open>'id'\<close>, \<open>'quantity'\<close> and \<open>'price'\<close>,
  after \<open>int(...)\<close>. Entries whose values do not parse as integers are outside this type.
\<close>

record cart_line =
  line_id :: nat
  line_quantity :: int
  line_price :: int

datatype http_method = GET | POST

record request =
  req_user :: user
  req_method :: http_method
  req_now :: nat
  cart_data :: "cart_line list"
  data_delivery_fee :: int
  data_customer_name :: string
  data_customer_phone :: string
  data_customer_address :: string
  data_sale_id :: "nat option"

datatype response =
  Redirect string
  | JsonResponse_success nat
  | JsonResponse_error error
  | Unhandled error

section \<open>Permissions (inventory/views.py)\<close>

definition is_admin :: "user \<Rightarrow> bool" where
  "is_admin u =
     (is_authenticated u \<and>
      (case profile u of None \<Rightarrow> False | Some p \<Rightarrow> role p = ''admin''))"

definition user_has_permission :: "user \<Rightarrow> string \<Rightarrow> bool" where
  "user_has_permission u perm_codename =
     (if \<not> is_authenticated u \<or> profile u = None then False
      else if is_admin u then True
      else (case profile u of None \<Rightarrow> False
            | Some p \<Rightarrow> perm_codename \<in> set (permissions p)))"

section \<open>Model methods (inventory/models.py)\<close>

definition subtotal :: "sale_item \<Rightarrow> int" where
  "subtotal item = item_quantity item * price_at_sale item"

definition items_only_total :: "sale \<Rightarrow> int" where
  "items_only_total s = total_amount s - delivery_fee s"

text \<open>\<open>sale.items.all()\<close>: the rows of \<open>SaleItem\<close> whose foreign key is the sale.\<close>

definition items :: "database \<Rightarrow> nat \<Rightarrow> sale_item list" where
  "items db sid = filter (\<lambda>i. item_sale i = sid) (sale_items db)"

text \<open>
  What a column of an \<open>IntegerField\<close> holds. A value outside is refused when it is
  written: the write raises \<open>OverflowError\<close>. A \<open>PositiveIntegerField\<close> has the
  same upper bound, and below 0 its constraint raises \<open>IntegrityError\<close>.
\<close>

definition IntegerField_range :: "database \<Rightarrow> int \<Rightarrow> bool" where
  "IntegerField_range db v = (- int (integer_max db) - 1 \<le> v \<and> v \<le> int (integer_max db))"

text \<open>
  \<open>sale.save()\<close>: the in-memory object \<open>s\<close> is written to the row \<open>sid\<close>;
  \<open>delivery_fee\<close> and \<open>total_amount\<close> are \<open>IntegerField\<close> columns. The text columns
  are taken as unbounded, as SQLite has them.
\<close>

definition Sale_save :: "database \<Rightarrow> nat \<Rightarrow> sale \<Rightarrow> error + database" where
  "Sale_save db sid s =
     (if IntegerField_range db (delivery_fee s) \<and> IntegerField_range db (total_amount s)
      then Inr (db\<lparr>sales := (sales db)(sid \<mapsto> s)\<rparr>)
      else Inl OverflowError)"

definition update_total :: "database \<Rightarrow> nat \<Rightarrow> sale \<Rightarrow> error + database" where
  "update_total db sid s =
     (let items_total = sum_list (map subtotal (items db sid))
      in Sale_save db sid (s\<lparr>total_amount := items_total + delivery_fee s\<rparr>))"

section \<open>Store operations used by the point of sale\<close>

text \<open>
  \<open>Sale.objects.create()\<close>: a row with the defaults of the model, \<open>created_at\<close> taking
  \<open>timezone.now\<close>, under the next primary key. The defaults 0 are in the range of every
  store.
\<close>

definition Sale_objects_create :: "database \<Rightarrow> nat \<Rightarrow> database \<times> nat \<times> sale" where
  "Sale_objects_create db t =
     (let s = \<lparr>created_at = t, created_by = None, delivery_fee = 0, total_amount = 0,
                customer_name = [], customer_phone = [], customer_address = []\<rparr>;
          sid = next_sale_pk db
      in (db\<lparr>sales := (sales db)(sid \<mapsto> s), next_sale_pk := Suc sid\<rparr>, sid, s))"

text \<open>
  \<open>SaleItem.objects.create(...)\<close>. \<open>quantity\<close> is a \<open>PositiveIntegerField\<close> and
  \<open>price_at_sale\<close> an \<open>IntegerField\<close>: a value outside the range of the column is
  refused, and a negative quantity violates the constraint of its column.
\<close>

definition SaleItem_objects_create :: "database \<Rightarrow> sale_item \<Rightarrow> error + database" where
  "SaleItem_objects_create db item =
     (if \<not> (IntegerField_range db (item_quantity item) \<and>
             IntegerField_range db (price_at_sale item)) then Inl OverflowError
      else if item_quantity item < 0 then Inl IntegrityError
      else Inr (db\<lparr>sale_items := sale_items db @ [item]\<rparr>))"

text \<open>
  \<open>medicine.quantity = F('quantity') + delta; medicine.save(update_fields=['quantity'])\<close>:
  an update computed by the store from the row's current value. The amount is a
  parameter of the statement and must be in range itself. \<open>Medicine.quantity\<close> is a
  \<open>PositiveIntegerField\<close>: an update to a negative value raises \<open>IntegrityError\<close>, one
  beyond the column is refused, and an update that meets no row raises
  \<open>DatabaseError\<close>.
\<close>

definition save_quantity :: "database \<Rightarrow> nat \<Rightarrow> int \<Rightarrow> error + database" where
  "save_quantity db pk delta =
     (if \<not> IntegerField_range db delta then Inl OverflowError
      else (case medicines db pk of
              None \<Rightarrow> Inl DatabaseError
            | Some m \<Rightarrow>
                if quantity m + delta < 0 then Inl IntegrityError
                else if int (integer_max db) < quantity m + delta then Inl OverflowError
                else Inr (db\<lparr>medicines :=
                            (medicines db)(pk \<mapsto> m\<lparr>quantity := quantity m + delta\<rparr>)\<rparr>)))"

section \<open>pos\_view (inventory/views.py)\<close>

text \<open>The loop \<open>for old_item in sale.items.all()\<close> that returns old items to stock.\<close>

fun return_to_stock :: "database \<Rightarrow> sale_item list \<Rightarrow> error + database" where
  "return_to_stock db [] = Inr db"
| "return_to_stock db (old_item # rest) =
     (case medicines db (item_medicine old_item) of
        None \<Rightarrow> Inl DoesNotExist
      | Some m \<Rightarrow>
          (case save_quantity db (item_medicine old_item) (item_quantity old_item) of
             Inl e \<Rightarrow> Inl e
           | Inr db' \<Rightarrow> return_to_stock db' rest))"

text \<open>\<open>sale.items.all().delete()\<close>.\<close>

definition delete_items :: "database \<Rightarrow> nat \<Rightarrow> database" where
  "delete_items db sid = db\<lparr>sale_items := filter (\<lambda>i. item_sale i \<noteq> sid) (sale_items db)\<rparr>"

text \<open>The body of the loop \<open>for item_data in cart_data\<close>.\<close>

definition sell_line :: "nat \<Rightarrow> database \<Rightarrow> cart_line \<Rightarrow> error + database" where
  "sell_line sid db item_data =
     (case medicines db (line_id item_data) of
        None \<Rightarrow> Inl DoesNotExist
      | Some m \<Rightarrow>
          let quantity_sold = line_quantity item_data;
              price = line_price item_data
          in if quantity m < quantity_sold
             then Inl (ValueError (''Not enough stock for '' @ name m @ ''.''))
             else (case SaleItem_objects_create db
                          \<lparr>item_sale = sid, item_medicine = line_id item_data,
                           item_quantity = quantity_sold, price_at_sale = price\<rparr> of
                     Inl e \<Rightarrow> Inl e
                   | Inr db' \<Rightarrow> save_quantity db' (line_id item_data) (- quantity_sold)))"

fun sell_cart :: "nat \<Rightarrow> database \<Rightarrow> cart_line list \<Rightarrow> error + database" where
  "sell_cart sid db [] = Inr db"
| "sell_cart sid db (item_data # rest) =
     (case sell_line sid db item_data of
        Inl e \<Rightarrow> Inl e
      | Inr db' \<Rightarrow> sell_cart sid db' rest)"

text \<open>
  \<open>if sale_id and user_has_permission(request.user, 'change_sale')\<close>: a missing
  \<open>sale_id\<close> and the value 0 are both false in Python.
\<close>

definition amending :: "request \<Rightarrow> bool" where
  "amending req =
     ((case data_sale_id req of None \<Rightarrow> False | Some sid \<Rightarrow> sid \<noteq> 0) \<and>
      user_has_permission (req_user req) ''change_sale'')"

text \<open>
  The branch that yields the sale to fill: the existing one, its items returned to
  stock and deleted, or a new one.
\<close>

definition open_sale :: "database \<Rightarrow> request \<Rightarrow> error + (database \<times> nat \<times> sale)" where
  "open_sale db req =
     (if amending req then
        (case data_sale_id req of
           None \<Rightarrow> Inl Http404
         | Some sid \<Rightarrow>
             (case sales db sid of
                None \<Rightarrow> Inl Http404
              | Some s \<Rightarrow>
                  (case return_to_stock db (items db sid) of
                     Inl e \<Rightarrow> Inl e
                   | Inr db' \<Rightarrow> Inr (delete_items db' sid, sid, s))))
      else Inr (Sale_objects_create db (req_now req)))"

text \<open>The block under \<open>with transaction.atomic()\<close>; \<open>Inl\<close> is an exception leaving it.\<close>

definition atomic_block :: "database \<Rightarrow> request \<Rightarrow> error + (database \<times> nat)" where
  "atomic_block db req =
     (case open_sale db req of
        Inl e \<Rightarrow> Inl e
      | Inr (db1, sid, s) \<Rightarrow>
          let s' = s\<lparr>created_by := Some (user_pk (req_user req)),
                     delivery_fee := data_delivery_fee req,
                     customer_name := data_customer_name req,
                     customer_phone := data_customer_phone req,
                     customer_address := data_customer_address req\<rparr>
          in (case Sale_save db1 sid s' of
                Inl e \<Rightarrow> Inl e
              | Inr db2 \<Rightarrow>
                  (case sell_cart sid db2 (cart_data req) of
                     Inl e \<Rightarrow> Inl e
                   | Inr db3 \<Rightarrow>
                       (case update_total db3 sid s' of
                          Inl e \<Rightarrow> Inl e
                        | Inr db4 \<Rightarrow> Inr (db4, sid)))))"

text \<open>
  The view. An exception inside the atomic block rolls the store back to the state at
  its entry, and the handler answers with status \<open>error\<close>; the store returned is then
  the one received. A request that is no POST reaches
  \<open>Medicine.objects.filter(quantity__gt=0, is_active=True)\<close>, which names a field that
  \<open>Medicine\<close> does not have: the call raises \<open>FieldError\<close> outside every handler.
\<close>

definition pos_view :: "database \<Rightarrow> request \<Rightarrow> database \<times> response" where
  "pos_view db req =
     (if \<not> is_authenticated (req_user req) then (db, Redirect ''/login/'')
      else if \<not> user_has_permission (req_user req) ''add_sale'' then (db, Redirect ''dashboard'')
      else if req_method req = POST then
        (case atomic_block db req of
           Inl e \<Rightarrow> (db, JsonResponse_error e)
         | Inr (db', sid) \<Rightarrow> (db', JsonResponse_success sid))
      else (db, Unhandled FieldError))"

section \<open>Inventory views (inventory/views.py)\<close>

text \<open>
  The bound \<open>MedicineForm\<close>, a \<open>ModelForm\<close> over the fields of \<open>Medicine\<close>: the cleaned
  text of \<open>name\<close> (stripped), the three integers that the \<open>medicine\<close> record keeps
  (\<open>None\<close> when the field is missing or no integer), and whether the fields that the
  record does not keep (code, brand, category, units per package, package type, the two
  dates) are valid.
\<close>

record medicine_form =
  form_name :: string
  form_quantity :: "int option"
  form_purchase_price :: "int option"
  form_selling_price :: "int option"
  form_rest_is_valid :: bool

text \<open>
  \<open>form.is_valid()\<close>: \<open>name\<close> is required and has at most 100 characters; the integer
  fields are required; the validators of the model fields bound them by the range of
  their columns, from 0 for the \<open>PositiveIntegerField\<close>.
\<close>

definition is_valid :: "database \<Rightarrow> medicine_form \<Rightarrow> bool" where
  "is_valid db f =
     (form_name f \<noteq> [] \<and> length (form_name f) \<le> 100 \<and>
      (case form_quantity f of
         None \<Rightarrow> False
       | Some q \<Rightarrow> 0 \<le> q \<and> IntegerField_range db q) \<and>
      (case form_purchase_price f of
         None \<Rightarrow> False
       | Some p \<Rightarrow> IntegerField_range db p) \<and>
      (case form_selling_price f of
         None \<Rightarrow> False
       | Some p \<Rightarrow> IntegerField_range db p) \<and>
      form_rest_is_valid f)"

text \<open>
  \<open>MedicineUpdateView\<close>, a POST: without \<open>change_medicine\<close>, for an unknown key or for
  an invalid form nothing is written; a valid form is saved to the row.
\<close>

definition MedicineUpdateView_post ::
  "database \<Rightarrow> user \<Rightarrow> nat \<Rightarrow> medicine_form \<Rightarrow> database" where
  "MedicineUpdateView_post db u pk f =
     (if \<not> user_has_permission u ''change_medicine'' then db
      else (case medicines db pk of
              None \<Rightarrow> db
            | Some m \<Rightarrow>
                (case (form_quantity f, form_purchase_price f, form_selling_price f) of
                   (Some q, Some b, Some p) \<Rightarrow>
                     if \<not> is_valid db f then db
                     else db\<lparr>medicines := (medicines db)(pk \<mapsto>
                               m\<lparr>name := form_name f, quantity := q,
                                 purchase_price := b, selling_price := p\<rparr>)\<rparr>
                 | _ \<Rightarrow> db)))"

text \<open>
  \<open>MedicineDeleteView.post\<close>: \<open>medicine.is_active = False\<close> sets an attribute of the
  object in memory that is no column of \<open>Medicine\<close>, and \<open>medicine.save()\<close> writes the
  columns of the row as they were loaded.
\<close>

definition MedicineDeleteView_post :: "database \<Rightarrow> user \<Rightarrow> nat \<Rightarrow> database" where
  "MedicineDeleteView_post db u pk =
     (if \<not> user_has_permission u ''delete_medicine'' then db
      else (case medicines db pk of
              None \<Rightarrow> db
            | Some medicine \<Rightarrow> db\<lparr>medicines := (medicines db)(pk \<mapsto> medicine)\<rparr>))"

section \<open>Notions used to state the properties\<close>

text \<open>The \<open>SaleItem\<close> row that the loop creates for a cart line.\<close>

definition line_item :: "nat \<Rightarrow> cart_line \<Rightarrow> sale_item" where
  "line_item sid l =
     \<lparr>item_sale = sid, item_medicine = line_id l,
      item_quantity = line_quantity l, price_at_sale = line_price l\<rparr>"

text \<open>The summed quantity that a cart requests of one medicine.\<close>

definition requested :: "nat \<Rightarrow> cart_line list \<Rightarrow> int" where
  "requested mid ls = sum_list (map line_quantity (filter (\<lambda>l. line_id l = mid) ls))"

text \<open>The summed quantity that a list of sale items holds of one medicine.\<close>

definition held :: "nat \<Rightarrow> sale_item list \<Rightarrow> int" where
  "held mid its = sum_list (map item_quantity (filter (\<lambda>i. item_medicine i = mid) its))"

text \<open>
  Every line asks for a medicine that exists, and for no more of it than its stock at
  that point: the starting stock less what the earlier lines of the cart took of the
  same medicine. Quantities are not negative.
\<close>

definition within_stock :: "database \<Rightarrow> cart_line list \<Rightarrow> bool" where
  "within_stock db ls =
     (\<forall>i < length ls.
        case medicines db (line_id (ls ! i)) of
          None \<Rightarrow> False
        | Some m \<Rightarrow>
            0 \<le> line_quantity (ls ! i) \<and>
            line_quantity (ls ! i) \<le> quantity m - requested (line_id (ls ! i)) (take i ls))"

text \<open>
  The values that a request asks the store to write are in the range of their columns:
  the quantity and the price of every line, the delivery fee, and the total of the cart
  with the fee.
\<close>

definition lines_in_range :: "database \<Rightarrow> cart_line list \<Rightarrow> bool" where
  "lines_in_range db ls =
     (\<forall>l \<in> set ls. IntegerField_range db (line_quantity l) \<and>
                   IntegerField_range db (line_price l))"

definition cart_total :: "cart_line list \<Rightarrow> int" where
  "cart_total ls = sum_list (map (\<lambda>l. line_quantity l * line_price l) ls)"

definition storable :: "database \<Rightarrow> request \<Rightarrow> bool" where
  "storable db req =
     (IntegerField_range db (data_delivery_fee req) \<and>
      lines_in_range db (cart_data req) \<and>
      IntegerField_range db (cart_total (cart_data req) + data_delivery_fee req))"

text \<open>No stock count is beyond what its column holds.\<close>

definition stock_in_range :: "database \<Rightarrow> bool" where
  "stock_in_range db = (\<forall>pk m. medicines db pk = Some m \<longrightarrow> quantity m \<le> int (integer_max db))"

text \<open>Every stock count is at least 0.\<close>

definition nonneg_stock :: "database \<Rightarrow> bool" where
  "nonneg_stock db = (\<forall>pk m. medicines db pk = Some m \<longrightarrow> 0 \<le> quantity m)"

text \<open>
  Referential integrity of the store: every \<open>SaleItem\<close> belongs to a \<open>Sale\<close> that
  exists, and the sequence of \<open>Sale\<close> is beyond every key in use.
\<close>

definition referential_integrity :: "database \<Rightarrow> bool" where
  "referential_integrity db =
     ((\<forall>i \<in> set (sale_items db). item_sale i \<in> dom (sales db)) \<and>
      (\<forall>k \<in> dom (sales db). k < next_sale_pk db))"

text \<open>A POST that creates a sale, and a POST that amends the sale \<open>sid\<close>.\<close>

definition apply_request :: "request \<Rightarrow> bool" where
  "apply_request req =
     (req_method req = POST \<and> user_has_permission (req_user req) ''add_sale'' \<and>
      \<not> amending req)"

definition amend_request :: "request \<Rightarrow> nat \<Rightarrow> bool" where
  "amend_request req sid =
     (req_method req = POST \<and> user_has_permission (req_user req) ''add_sale'' \<and>
      amending req \<and> data_sale_id req = Some sid)"

text \<open>Requests served one after the other, each on the store the previous one left.\<close>

definition serve :: "database \<Rightarrow> request list \<Rightarrow> database" where
  "serve db reqs = foldl (\<lambda>d r. fst (pos_view d r)) db reqs"

text \<open>
  The store with the stock of a sale given back, as the specification words it: every
  medicine gains what the items of the sale hold of it.
\<close>

definition restored :: "database \<Rightarrow> nat \<Rightarrow> database" where
  "restored db sid =
     db\<lparr>medicines := (\<lambda>pk. map_option (\<lambda>m. m\<lparr>quantity := quantity m + held pk (items db sid)\<rparr>)
                                 (medicines db pk))\<rparr>"

text \<open>
  The items of a sale can be given back: each refers to a medicine that exists and holds
  a quantity that is not negative.
\<close>

definition returnable :: "database \<Rightarrow> nat \<Rightarrow> bool" where
  "returnable db sid =
     (\<forall>i \<in> set (items db sid). 0 \<le> item_quantity i \<and> medicines db (item_medicine i) \<noteq> None)"

text \<open>
  The sale object that the view saves before the loop (\<open>sale.save()\<close>), and the store
  on which the loop of a new sale starts once that object is saved.
\<close>

definition filled_sale :: "sale \<Rightarrow> request \<Rightarrow> sale" where
  "filled_sale s req =
     s\<lparr>created_by := Some (user_pk (req_user req)),
       delivery_fee := data_delivery_fee req,
       customer_name := data_customer_name req,
       customer_phone := data_customer_phone req,
       customer_address := data_customer_address req\<rparr>"

definition loop_entry :: "database \<Rightarrow> request \<Rightarrow> database" where
  "loop_entry db req =
     (case Sale_objects_create db (req_now req) of
        (db1, sid, s) \<Rightarrow> db1\<lparr>sales := (sales db1)(sid \<mapsto> filled_sale s req)\<rparr>)"

text \<open>
  The second of two lines is the one refused for lack of stock: the first is sold, the
  second raises the stock error on the store the first one left.
\<close>

definition refused_on_second_line ::
  "nat \<Rightarrow> database \<Rightarrow> cart_line \<Rightarrow> cart_line \<Rightarrow> bool" where
  "refused_on_second_line sid db l1 l2 =
     (case sell_line sid db l1 of
        Inl e \<Rightarrow> False
      | Inr db1 \<Rightarrow>
          (case sell_line sid db1 l2 of
             Inl (ValueError msg) \<Rightarrow> True
           | _ \<Rightarrow> False))"

section \<open>Concrete stores and requests\<close>

definition pharmacist :: user where
  "pharmacist =
     \<lparr>user_pk = 1, is_authenticated = True,
      profile = Some \<lparr>role = ''staff'', permissions = [''add_sale'', ''change_sale'']\<rparr>\<rparr>"

definition manager :: user where
  "manager =
     \<lparr>user_pk = 2, is_authenticated = True,
      profile = Some \<lparr>role = ''admin'', permissions = []\<rparr>\<rparr>"

definition medicine_A :: medicine where
  "medicine_A =
     \<lparr>name = ''A'', quantity = 10, purchase_price = 300, selling_price = 500\<rparr>"

definition medicine_B :: medicine where
  "medicine_B =
     \<lparr>name = ''B'', quantity = 2, purchase_price = 60, selling_price = 100\<rparr>"

definition store_AB :: database where
  "store_AB =
     \<lparr>medicines = [1 \<mapsto> medicine_A, 2 \<mapsto> medicine_B], sales = Map.empty,
      sale_items = [], next_sale_pk = 1, integer_max = 9223372036854775807\<rparr>"

definition sell :: "user \<Rightarrow> cart_line list \<Rightarrow> int \<Rightarrow> nat option \<Rightarrow> request" where
  "sell u ls fee sid =
     \<lparr>req_user = u, req_method = POST, req_now = 7, cart_data = ls,
      data_delivery_fee = fee, data_customer_name = [], data_customer_phone = [],
      data_customer_address = [], data_sale_id = sid\<rparr>"

definition line :: "nat \<Rightarrow> int \<Rightarrow> int \<Rightarrow> cart_line" where
  "line pk q p = \<lparr>line_id = pk, line_quantity = q, line_price = p\<rparr>"

text \<open>The store after the pharmacist sold 3 of A at 500 with a delivery fee of 100.\<close>

definition store_sold :: database where
  "store_sold =
     \<lparr>medicines = [1 \<mapsto> medicine_A\<lparr>quantity := 7\<rparr>, 2 \<mapsto> medicine_B],
      sales = [1 \<mapsto> \<lparr>created_at = 7, created_by = Some 1, delivery_fee = 100,
                       total_amount = 1600, customer_name = [], customer_phone = [],
                       customer_address = []\<rparr>],
      sale_items = [\<lparr>item_sale = 1, item_medicine = 1, item_quantity = 3,
                     price_at_sale = 500\<rparr>],
      next_sale_pk = 2, integer_max = 9223372036854775807\<rparr>"

section \<open>Facts about the loops\<close>

lemmas concrete_defs = pharmacist_def manager_def medicine_A_def medicine_B_def store_AB_def
  sell_def line_def store_sold_def

lemma IntegerField_range_cong:
  "integer_max db = integer_max db' \<Longrightarrow> IntegerField_range db v = IntegerField_range db' v"
  by (simp add: IntegerField_range_def)

lemma sell_line_Inr:
  "sell_line sid db l = Inr db' \<longleftrightarrow>
     (\<exists>m. medicines db (line_id l) = Some m \<and> 0 \<le> line_quantity l \<and>
          line_quantity l \<le> quantity m \<and>
          line_quantity l \<le> int (integer_max db) \<and> IntegerField_range db (line_price l) \<and>
          quantity m - line_quantity l \<le> int (integer_max db) \<and>
          db' = db\<lparr>sale_items := sale_items db @ [line_item sid l],
                   medicines := (medicines db)(line_id l \<mapsto>
                                  m\<lparr>quantity := quantity m - line_quantity l\<rparr>)\<rparr>)"
  by (auto simp: sell_line_def SaleItem_objects_create_def save_quantity_def line_item_def Let_def
      IntegerField_range_def split: option.splits if_splits sum.splits)

lemma requested_Cons:
  "requested mid (l # ls) = (if line_id l = mid then line_quantity l else 0) + requested mid ls"
  by (simp add: requested_def)

lemma requested_Nil: "requested mid [] = 0"
  by (simp add: requested_def)

lemma sell_cart_Cons_Inr:
  "sell_cart sid db (l # ls) = Inr db' \<longleftrightarrow>
     (\<exists>db1. sell_line sid db l = Inr db1 \<and> sell_cart sid db1 ls = Inr db')"
  by (auto split: sum.splits)

lemma sell_cart_append:
  "sell_cart sid db (xs @ ys) =
     (case sell_cart sid db xs of Inl e \<Rightarrow> Inl e | Inr db' \<Rightarrow> sell_cart sid db' ys)"
  by (induction xs arbitrary: db) (auto split: sum.splits)

lemma sell_cart_Inr:
  "sell_cart sid db ls = Inr db' \<Longrightarrow>
     sales db' = sales db \<and> next_sale_pk db' = next_sale_pk db \<and>
     integer_max db' = integer_max db \<and>
     sale_items db' = sale_items db @ map (line_item sid) ls \<and>
     medicines db' = (\<lambda>mid. map_option (\<lambda>m. m\<lparr>quantity := quantity m - requested mid ls\<rparr>) (medicines db mid))"
proof (induction ls arbitrary: db)
  case Nil
  then show ?case by (auto simp: requested_Nil map_option.identity option.map_ident intro!: ext)
next
  case (Cons l ls)
  from Cons.prems obtain db1 where s1: "sell_line sid db l = Inr db1" and s2: "sell_cart sid db1 ls = Inr db'"
    unfolding sell_cart_Cons_Inr by blast
  from s1 obtain m where m: "medicines db (line_id l) = Some m"
    and db1: "db1 = db\<lparr>sale_items := sale_items db @ [line_item sid l],
                 medicines := (medicines db)(line_id l \<mapsto> m\<lparr>quantity := quantity m - line_quantity l\<rparr>)\<rparr>"
    unfolding sell_line_Inr by blast
  note IH = Cons.IH [OF s2]
  have "medicines db' = (\<lambda>mid. map_option (\<lambda>m. m\<lparr>quantity := quantity m - requested mid (l # ls)\<rparr>) (medicines db mid))"
    using IH m by (auto simp: db1 requested_Cons intro!: ext)
  then show ?case using IH by (simp add: db1)
qed

lemma within_stock_Nil: "within_stock db []"
  by (simp add: within_stock_def)

lemma within_stock_Cons:
  "within_stock db (l # ls) \<longleftrightarrow>
    (\<exists>m. medicines db (line_id l) = Some m \<and> 0 \<le> line_quantity l \<and> line_quantity l \<le> quantity m \<and>
       within_stock (db\<lparr>sale_items := sale_items db @ [line_item sid l],
                 medicines := (medicines db)(line_id l \<mapsto> m\<lparr>quantity := quantity m - line_quantity l\<rparr>)\<rparr>) ls)"
  (is "?L \<longleftrightarrow> ?R")
proof
  assume L: ?L
  from L[unfolded within_stock_def, rule_format, of 0]
  obtain m where m: "medicines db (line_id l) = Some m" and q: "0 \<le> line_quantity l" "line_quantity l \<le> quantity m"
    by (auto simp: requested_Nil split: option.splits)
  have "within_stock (db\<lparr>sale_items := sale_items db @ [line_item sid l],
                 medicines := (medicines db)(line_id l \<mapsto> m\<lparr>quantity := quantity m - line_quantity l\<rparr>)\<rparr>) ls"
    unfolding within_stock_def
  proof (intro allI impI)
    fix i assume i: "i < length ls"
    from L[unfolded within_stock_def, rule_format, of "Suc i"] i
    show "case medicines (db\<lparr>sale_items := sale_items db @ [line_item sid l],
                 medicines := (medicines db)(line_id l \<mapsto> m\<lparr>quantity := quantity m - line_quantity l\<rparr>)\<rparr>) (line_id (ls ! i)) of
          None \<Rightarrow> False
        | Some m \<Rightarrow>
            0 \<le> line_quantity (ls ! i) \<and>
            line_quantity (ls ! i) \<le> quantity m - requested (line_id (ls ! i)) (take i ls)"
      using m by (auto simp: requested_Cons split: option.splits)
  qed
  with m q show ?R by blast
next
  assume ?R
  then obtain m where m: "medicines db (line_id l) = Some m" and q: "0 \<le> line_quantity l" "line_quantity l \<le> quantity m"
    and W: "within_stock (db\<lparr>sale_items := sale_items db @ [line_item sid l],
                 medicines := (medicines db)(line_id l \<mapsto> m\<lparr>quantity := quantity m - line_quantity l\<rparr>)\<rparr>) ls"
    by blast
  show ?L unfolding within_stock_def
  proof (intro allI impI)
    fix i assume i: "i < length (l # ls)"
    show "case medicines db (line_id ((l # ls) ! i)) of
          None \<Rightarrow> False
        | Some m \<Rightarrow>
            0 \<le> line_quantity ((l # ls) ! i) \<and>
            line_quantity ((l # ls) ! i) \<le> quantity m - requested (line_id ((l # ls) ! i)) (take i (l # ls))"
    proof (cases i)
      case 0
      then show ?thesis using m q by (simp add: requested_Nil)
    next
      case (Suc j)
      with i have j: "j < length ls" by simp
      from W[unfolded within_stock_def, rule_format, OF j] m
      show ?thesis unfolding Suc
        by (auto simp: requested_Cons split: option.splits if_splits)
    qed
  qed
qed

text \<open>A cart that is sold was within stock, and its lines were in range.\<close>

lemma sell_cart_within_stock:
  "sell_cart sid db ls = Inr db' \<Longrightarrow> within_stock db ls \<and> lines_in_range db ls"
proof (induction ls arbitrary: db)
  case Nil
  then show ?case by (simp add: within_stock_Nil lines_in_range_def)
next
  case (Cons l ls)
  from Cons.prems obtain db1 where s1: "sell_line sid db l = Inr db1" and s2: "sell_cart sid db1 ls = Inr db'"
    unfolding sell_cart_Cons_Inr by blast
  from s1 obtain m where m: "medicines db (line_id l) = Some m"
    and q: "0 \<le> line_quantity l" "line_quantity l \<le> quantity m"
      "line_quantity l \<le> int (integer_max db)" "IntegerField_range db (line_price l)"
    and db1: "db1 = db\<lparr>sale_items := sale_items db @ [line_item sid l],
                 medicines := (medicines db)(line_id l \<mapsto> m\<lparr>quantity := quantity m - line_quantity l\<rparr>)\<rparr>"
    unfolding sell_line_Inr by blast
  from Cons.IH [OF s2] have w: "within_stock db1 ls" and r: "lines_in_range db1 ls" by simp_all
  have "within_stock db (l # ls)"
    unfolding within_stock_Cons [of db l ls sid] using m q w db1 by blast
  moreover have "lines_in_range db (l # ls)"
    using r q by (auto simp: lines_in_range_def db1 IntegerField_range_def)
  ultimately show ?case by simp
qed

text \<open>
  A cart within stock, with its lines in range, is sold on a store whose stock is in
  range.
\<close>

lemma sell_cart_total:
  "within_stock db ls \<Longrightarrow> lines_in_range db ls \<Longrightarrow> stock_in_range db \<Longrightarrow>
   \<exists>db'. sell_cart sid db ls = Inr db'"
proof (induction ls arbitrary: db)
  case Nil
  then show ?case by simp
next
  case (Cons l ls)
  from Cons.prems(1) obtain m where m: "medicines db (line_id l) = Some m"
    and q: "0 \<le> line_quantity l" "line_quantity l \<le> quantity m"
    and w: "within_stock (db\<lparr>sale_items := sale_items db @ [line_item sid l],
                 medicines := (medicines db)(line_id l \<mapsto> m\<lparr>quantity := quantity m - line_quantity l\<rparr>)\<rparr>) ls"
    unfolding within_stock_Cons [of db l ls sid] by blast
  define db1 where "db1 = db\<lparr>sale_items := sale_items db @ [line_item sid l],
                 medicines := (medicines db)(line_id l \<mapsto> m\<lparr>quantity := quantity m - line_quantity l\<rparr>)\<rparr>"
  have qm: "quantity m \<le> int (integer_max db)"
    using Cons.prems(3) m by (auto simp: stock_in_range_def)
  have r: "IntegerField_range db (line_price l)"
    using Cons.prems(2) by (simp add: lines_in_range_def)
  have s1: "sell_line sid db l = Inr db1"
    unfolding sell_line_Inr db1_def using m q qm r by simp
  have "lines_in_range db1 ls"
    using Cons.prems(2) by (simp add: lines_in_range_def db1_def IntegerField_range_def)
  moreover have "stock_in_range db1"
    using Cons.prems(3) q qm by (auto simp: stock_in_range_def db1_def)
  ultimately obtain db' where "sell_cart sid db1 ls = Inr db'"
    using Cons.IH [of db1] w by (auto simp: db1_def)
  with s1 show ?case by simp
qed

lemma within_stock_cong: "medicines db = medicines db2 \<Longrightarrow> within_stock db ls = within_stock db2 ls"
  by (simp add: within_stock_def)

lemma lines_in_range_cong:
  "integer_max db = integer_max db2 \<Longrightarrow> lines_in_range db ls = lines_in_range db2 ls"
  by (simp add: lines_in_range_def IntegerField_range_def)

lemma stock_in_range_cong:
  "medicines db = medicines db2 \<Longrightarrow> integer_max db = integer_max db2 \<Longrightarrow>
   stock_in_range db = stock_in_range db2"
  by (simp add: stock_in_range_def)



lemma within_stock_nonneg:
  "within_stock db ls \<Longrightarrow> l \<in> set ls \<Longrightarrow> 0 \<le> line_quantity l"
  unfolding within_stock_def in_set_conv_nth
  by (auto split: option.splits)

lemma sell_cart_nonneg_lines:
  "sell_cart sid db ls = Inr db' \<Longrightarrow> l \<in> set ls \<Longrightarrow> 0 \<le> line_quantity l"
  using sell_cart_within_stock within_stock_nonneg by blast

lemma items_line_item: "filter (\<lambda>i. item_sale i = sid) (map (line_item sid) ls) = map (line_item sid) ls"
  by (induction ls) (auto simp: line_item_def)

lemma subtotal_line_items:
  "sum_list (map subtotal (map (line_item sid) ls)) = cart_total ls"
  by (induction ls) (simp_all add: cart_total_def subtotal_def line_item_def)

section \<open>Facts about the view\<close>


lemma authenticated_if_permitted: "user_has_permission u p \<Longrightarrow> is_authenticated u"
  by (auto simp: user_has_permission_def split: if_splits)

lemma pos_view_POST:
  "req_method req = POST \<Longrightarrow> user_has_permission (req_user req) ''add_sale'' \<Longrightarrow>
   pos_view db req =
     (case atomic_block db req of
        Inl e \<Rightarrow> (db, JsonResponse_error e)
      | Inr (db', sid) \<Rightarrow> (db', JsonResponse_success sid))"
  by (simp add: pos_view_def authenticated_if_permitted)

lemma pos_view_success:
  "pos_view db req = (db', JsonResponse_success sid) \<Longrightarrow> atomic_block db req = Inr (db', sid)"
  by (auto simp: pos_view_def split: if_splits sum.splits)

lemma Sale_save_Inr:
  "Sale_save db sid s = Inr db' \<longleftrightarrow>
     (IntegerField_range db (delivery_fee s) \<and> IntegerField_range db (total_amount s) \<and>
      db' = db\<lparr>sales := (sales db)(sid \<mapsto> s)\<rparr>)"
  by (auto simp: Sale_save_def)

lemma update_total_Inr:
  "update_total db sid s = Inr db' \<longleftrightarrow>
     (IntegerField_range db (delivery_fee s) \<and>
      IntegerField_range db (sum_list (map subtotal (items db sid)) + delivery_fee s) \<and>
      db' = db\<lparr>sales := (sales db)(sid \<mapsto>
                 s\<lparr>total_amount := sum_list (map subtotal (items db sid)) + delivery_fee s\<rparr>)\<rparr>)"
  by (auto simp: update_total_def Sale_save_def Let_def)

text \<open>What a successful run of the atomic block went through.\<close>

lemma atomic_block_Inr:
  "atomic_block db req = Inr (db', sid) \<longleftrightarrow>
   (\<exists>db1 s db2 db3. open_sale db req = Inr (db1, sid, s) \<and>
      Sale_save db1 sid (filled_sale s req) = Inr db2 \<and>
      sell_cart sid db2 (cart_data req) = Inr db3 \<and>
      update_total db3 sid (filled_sale s req) = Inr db')"
  unfolding atomic_block_def filled_sale_def
  by (auto simp: Let_def split: sum.splits prod.splits)

lemma open_sale_new:
  "\<not> amending req \<Longrightarrow>
   open_sale db req =
     Inr (db\<lparr>sales := (sales db)(next_sale_pk db \<mapsto>
               \<lparr>created_at = req_now req, created_by = None, delivery_fee = 0,
                total_amount = 0, customer_name = [], customer_phone = [],
                customer_address = []\<rparr>),
             next_sale_pk := Suc (next_sale_pk db)\<rparr>,
          next_sale_pk db,
          \<lparr>created_at = req_now req, created_by = None, delivery_fee = 0,
           total_amount = 0, customer_name = [], customer_phone = [],
           customer_address = []\<rparr>)"
  by (simp add: open_sale_def Sale_objects_create_def Let_def)

lemma loop_entry_frame:
  "medicines (loop_entry db req) = medicines db"
  "sale_items (loop_entry db req) = sale_items db"
  "integer_max (loop_entry db req) = integer_max db"
  "next_sale_pk (loop_entry db req) = Suc (next_sale_pk db)"
  by (simp_all add: loop_entry_def Sale_objects_create_def Let_def)

text \<open>
  A new sale: the object is saved when the delivery fee is in range, and the loop then
  starts on \<open>loop_entry\<close>.
\<close>

lemma new_sale_atomic_block:
  assumes "\<not> amending req" and "IntegerField_range db (data_delivery_fee req)"
  shows "atomic_block db req =
           (case sell_cart (next_sale_pk db) (loop_entry db req) (cart_data req) of
              Inl e \<Rightarrow> Inl e
            | Inr db3 \<Rightarrow>
                (case update_total db3 (next_sale_pk db)
                        (filled_sale \<lparr>created_at = req_now req, created_by = None,
                                      delivery_fee = 0, total_amount = 0, customer_name = [],
                                      customer_phone = [], customer_address = []\<rparr> req) of
                   Inl e \<Rightarrow> Inl e
                 | Inr db4 \<Rightarrow> Inr (db4, next_sale_pk db)))"
  using assms unfolding atomic_block_def filled_sale_def loop_entry_def
  by (simp add: open_sale_def Sale_objects_create_def Sale_save_def Let_def IntegerField_range_def)


section \<open>A new sale\<close>

lemma fresh_pk_unused:
  "referential_integrity db \<Longrightarrow> filter (\<lambda>i. item_sale i = next_sale_pk db) (sale_items db) = []"
  unfolding referential_integrity_def filter_empty_conv
  by (metis less_irrefl)

text \<open>The items of a new sale, once the loop has run, are the lines of the cart.\<close>

lemma new_sale_items:
  assumes ri: "referential_integrity db"
    and c: "sell_cart (next_sale_pk db) (loop_entry db req) ls = Inr db3"
  shows "items db3 (next_sale_pk db) = map (line_item (next_sale_pk db)) ls"
  using sell_cart_Inr [OF c] fresh_pk_unused [OF ri]
  by (simp add: items_def loop_entry_frame items_line_item)

text \<open>
  A new sale succeeds when its cart is within stock line by line and every value that
  it asks the store to write is in the range of its column.
\<close>

lemma new_sale_succeeds:
  assumes req: "apply_request req" and ri: "referential_integrity db"
    and ws: "within_stock db (cart_data req)"
    and st: "storable db req" and sr: "stock_in_range db"
  shows "\<exists>db'. pos_view db req = (db', JsonResponse_success (next_sale_pk db))"
proof -
  let ?sid = "next_sale_pk db"
  let ?s = "filled_sale \<lparr>created_at = req_now req, created_by = None,
                         delivery_fee = 0, total_amount = 0, customer_name = [],
                         customer_phone = [], customer_address = []\<rparr> req"
  have post: "req_method req = POST" "user_has_permission (req_user req) ''add_sale''"
    and na: "\<not> amending req"
    using req by (simp_all add: apply_request_def)
  have fee: "IntegerField_range db (data_delivery_fee req)"
    and lr: "lines_in_range db (cart_data req)"
    and tot: "IntegerField_range db (cart_total (cart_data req) + data_delivery_fee req)"
    using st by (simp_all add: storable_def)
  have "within_stock (loop_entry db req) (cart_data req)"
    using ws within_stock_cong [OF loop_entry_frame(1)] by blast
  moreover have "lines_in_range (loop_entry db req) (cart_data req)"
    using lr lines_in_range_cong [OF loop_entry_frame(3)] by blast
  moreover have "stock_in_range (loop_entry db req)"
    using sr stock_in_range_cong [OF loop_entry_frame(1) loop_entry_frame(3)] by blast
  ultimately obtain db3 where c: "sell_cart ?sid (loop_entry db req) (cart_data req) = Inr db3"
    using sell_cart_total by blast
  have it: "items db3 ?sid = map (line_item ?sid) (cart_data req)"
    using ri c by (rule new_sale_items)
  have im: "integer_max db3 = integer_max db"
    using sell_cart_Inr [OF c] by (simp add: loop_entry_frame)
  have "\<exists>db4. update_total db3 ?sid ?s = Inr db4"
    unfolding update_total_Inr it subtotal_line_items
    using fee tot IntegerField_range_cong [OF im] by (simp add: filled_sale_def)
  then obtain db4 where u: "update_total db3 ?sid ?s = Inr db4" by blast
  have "atomic_block db req = Inr (db4, ?sid)"
    unfolding new_sale_atomic_block [OF na fee] using c u by simp
  then show ?thesis using post by (simp add: pos_view_POST)
qed


text \<open>
  The scenario of the specification: stock 10, one line of 3 at 500, delivery fee 100;
  the sale succeeds, the stock becomes 7 and the total 1600.
\<close>

lemma sale_of_3_A:
  "pos_view store_AB (sell pharmacist [line 1 3 500] 100 None) =
     (store_sold, JsonResponse_success 1)"
  by (simp add: pos_view_def atomic_block_def open_sale_def amending_def sell_line_def
      SaleItem_objects_create_def save_quantity_def Sale_objects_create_def Sale_save_def
      update_total_def items_def subtotal_def IntegerField_range_def
      user_has_permission_def is_admin_def concrete_defs Let_def fun_upd_twist)





section \<open>Amending a sale\<close>

lemma save_quantity_Inr:
  "save_quantity db pk d = Inr db' \<longleftrightarrow>
     (IntegerField_range db d \<and>
      (\<exists>m. medicines db pk = Some m \<and> 0 \<le> quantity m + d \<and>
           quantity m + d \<le> int (integer_max db) \<and>
           db' = db\<lparr>medicines := (medicines db)(pk \<mapsto> m\<lparr>quantity := quantity m + d\<rparr>)\<rparr>))"
  by (auto simp: save_quantity_def split: option.splits)

lemma held_Cons:
  "held pk (i # its) = (if item_medicine i = pk then item_quantity i else 0) + held pk its"
  by (simp add: held_def)

lemma held_Nil: "held pk [] = 0"
  by (simp add: held_def)

lemma held_nonneg: "\<forall>i \<in> set its. 0 \<le> item_quantity i \<Longrightarrow> 0 \<le> held pk its"
  by (induction its) (simp_all add: held_Nil held_Cons)

lemma return_to_stock_Inr:
  "return_to_stock db its = Inr db' \<Longrightarrow>
     db' = db\<lparr>medicines := (\<lambda>pk. map_option (\<lambda>m. m\<lparr>quantity := quantity m + held pk its\<rparr>)
                                       (medicines db pk))\<rparr>"
proof (induction its arbitrary: db)
  case Nil
  then show ?case by (simp add: held_Nil option.map_ident)
next
  case (Cons i its)
  from Cons.prems obtain m db1 where m: "medicines db (item_medicine i) = Some m"
    and db1: "db1 = db\<lparr>medicines := (medicines db)(item_medicine i \<mapsto>
                        m\<lparr>quantity := quantity m + item_quantity i\<rparr>)\<rparr>"
    and rest: "return_to_stock db1 its = Inr db'"
    by (auto simp: save_quantity_Inr split: option.splits sum.splits)
  have "(\<lambda>pk. map_option (\<lambda>m. m\<lparr>quantity := quantity m + held pk its\<rparr>) (medicines db1 pk)) =
        (\<lambda>pk. map_option (\<lambda>m. m\<lparr>quantity := quantity m + held pk (i # its)\<rparr>) (medicines db pk))"
    using m by (auto simp: db1 held_Cons intro!: ext)
  with Cons.IH [OF rest] show ?case by (simp add: db1)
qed

lemma return_to_stock_total:
  "nonneg_stock db \<Longrightarrow>
   \<forall>i \<in> set its. 0 \<le> item_quantity i \<and> medicines db (item_medicine i) \<noteq> None \<Longrightarrow>
   \<forall>pk m. medicines db pk = Some m \<longrightarrow> quantity m + held pk its \<le> int (integer_max db) \<Longrightarrow>
   \<exists>db'. return_to_stock db its = Inr db'"
proof (induction its arbitrary: db)
  case Nil
  then show ?case by simp
next
  case (Cons i its)
  from Cons.prems(2) obtain m where m: "medicines db (item_medicine i) = Some m"
    and q: "0 \<le> item_quantity i"
    by auto
  from Cons.prems(2) have nn_its: "\<forall>j \<in> set its. 0 \<le> item_quantity j" by simp
  define db1 where "db1 = db\<lparr>medicines := (medicines db)(item_medicine i \<mapsto>
                        m\<lparr>quantity := quantity m + item_quantity i\<rparr>)\<rparr>"
  have qm: "0 \<le> quantity m" using Cons.prems(1) m by (auto simp: nonneg_stock_def)
  have "quantity m + held (item_medicine i) (i # its) \<le> int (integer_max db)"
    using Cons.prems(3) m by blast
  then have up: "quantity m + item_quantity i \<le> int (integer_max db)"
    using held_nonneg [OF nn_its, of "item_medicine i"] by (simp add: held_Cons)
  have s: "save_quantity db (item_medicine i) (item_quantity i) = Inr db1"
    unfolding save_quantity_Inr db1_def using m q qm up
    by (simp add: IntegerField_range_def)
  have nn: "nonneg_stock db1"
    using Cons.prems(1) q qm by (auto simp: nonneg_stock_def db1_def)
  have ex: "\<forall>j \<in> set its. 0 \<le> item_quantity j \<and> medicines db1 (item_medicine j) \<noteq> None"
    using Cons.prems(2) by (auto simp: db1_def)
  have rg: "\<forall>pk m1. medicines db1 pk = Some m1 \<longrightarrow>
              quantity m1 + held pk its \<le> int (integer_max db1)"
  proof (intro allI impI)
    fix pk m1
    assume a: "medicines db1 pk = Some m1"
    show "quantity m1 + held pk its \<le> int (integer_max db1)"
    proof (cases "pk = item_medicine i")
      case True
      with a have "m1 = m\<lparr>quantity := quantity m + item_quantity i\<rparr>"
        by (simp add: db1_def)
      moreover have "quantity m + held (item_medicine i) (i # its) \<le> int (integer_max db)"
        using Cons.prems(3) m by blast
      ultimately show ?thesis using True by (simp add: held_Cons db1_def)
    next
      case False
      with a have "medicines db pk = Some m1" by (simp add: db1_def)
      then have "quantity m1 + held pk (i # its) \<le> int (integer_max db)"
        using Cons.prems(3) by blast
      with False show ?thesis by (simp add: held_Cons db1_def)
    qed
  qed
  from Cons.IH [OF nn ex rg] show ?case using m s by simp
qed

text \<open>The loop of the view gives the stock back as the specification words it.\<close>

lemma return_to_stock_restored:
  assumes "nonneg_stock db" and "returnable db sid" and "stock_in_range (restored db sid)"
  shows "return_to_stock db (items db sid) = Inr (restored db sid)"
proof -
  have "\<forall>pk m. medicines db pk = Some m \<longrightarrow>
          quantity m + held pk (items db sid) \<le> int (integer_max db)"
  proof (intro allI impI)
    fix pk m
    assume "medicines db pk = Some m"
    then have "medicines (restored db sid) pk =
        Some (m\<lparr>quantity := quantity m + held pk (items db sid)\<rparr>)"
      by (simp add: restored_def)
    with assms(3) have "quantity (m\<lparr>quantity := quantity m + held pk (items db sid)\<rparr>)
        \<le> int (integer_max (restored db sid))"
      unfolding stock_in_range_def by blast
    then show "quantity m + held pk (items db sid) \<le> int (integer_max db)"
      by (simp add: restored_def)
  qed
  with assms obtain db' where r: "return_to_stock db (items db sid) = Inr db'"
    using return_to_stock_total [of db "items db sid"] by (auto simp: returnable_def)
  from return_to_stock_Inr [OF r] r show ?thesis by (simp add: restored_def)
qed

lemma amend_open_sale:
  assumes "amend_request req sid" and "sales db sid = Some s"
  shows "open_sale db req =
           (case return_to_stock db (items db sid) of
              Inl e \<Rightarrow> Inl e
            | Inr dbr \<Rightarrow> Inr (delete_items dbr sid, sid, s))"
  using assms by (simp add: open_sale_def amend_request_def)

text \<open>What a successful amendment went through.\<close>

lemma amend_success:
  assumes req: "amend_request req sid" and s: "sales db sid = Some s"
    and ab: "atomic_block db req = Inr (db', sid')"
  shows "sid' = sid \<and>
         (\<exists>db3. return_to_stock db (items db sid) = Inr (restored db sid) \<and>
            IntegerField_range db (data_delivery_fee req) \<and>
            sell_cart sid ((delete_items (restored db sid) sid)
                             \<lparr>sales := (sales db)(sid \<mapsto> filled_sale s req)\<rparr>)
              (cart_data req) = Inr db3 \<and>
            update_total db3 sid (filled_sale s req) = Inr db')"
proof -
  from ab obtain db1 s1 db2 db3 where
    o: "open_sale db req = Inr (db1, sid', s1)"
    and sv: "Sale_save db1 sid' (filled_sale s1 req) = Inr db2"
    and c: "sell_cart sid' db2 (cart_data req) = Inr db3"
    and u: "update_total db3 sid' (filled_sale s1 req) = Inr db'"
    unfolding atomic_block_Inr by blast
  from o have "\<exists>dbr. return_to_stock db (items db sid) = Inr dbr \<and>
      db1 = delete_items dbr sid \<and> sid' = sid \<and> s1 = s"
    unfolding amend_open_sale [OF req s]
    by (cases "return_to_stock db (items db sid)") auto
  then obtain dbr where r: "return_to_stock db (items db sid) = Inr dbr"
    and db1: "db1 = delete_items dbr sid" and sid: "sid' = sid" and s1: "s1 = s"
    by blast
  have dbr: "dbr = restored db sid"
    using return_to_stock_Inr [OF r] by (simp add: restored_def)
  from sv have f: "IntegerField_range db (data_delivery_fee req)"
    and db2: "db2 = (delete_items (restored db sid) sid)
                      \<lparr>sales := (sales db)(sid \<mapsto> filled_sale s req)\<rparr>"
    unfolding Sale_save_Inr
    by (simp_all add: db1 dbr sid s1 filled_sale_def delete_items_def restored_def
        IntegerField_range_def)
  from r c u f show ?thesis unfolding sid s1 db2 dbr by blast
qed

lemma items_after_amend:
  "filter (\<lambda>i. item_sale i = k)
     (filter (\<lambda>i. item_sale i \<noteq> sid) xs @ map (line_item sid) ls) =
   (if k = sid then map (line_item sid) ls else filter (\<lambda>i. item_sale i = k) xs)"
proof -
  have a: "filter (\<lambda>i. item_sale i = sid) (filter (\<lambda>i. item_sale i \<noteq> sid) xs) = []"
    by (induction xs) auto
  have b: "k \<noteq> sid \<Longrightarrow> filter (\<lambda>i. item_sale i = k) (filter (\<lambda>i. item_sale i \<noteq> sid) xs) =
           filter (\<lambda>i. item_sale i = k) xs"
    by (induction xs) auto
  have c: "k \<noteq> sid \<Longrightarrow> filter (\<lambda>i. item_sale i = k) (map (line_item sid) ls) = []"
    by (induction ls) (auto simp: line_item_def)
  show ?thesis using a b c by (simp add: items_line_item)
qed

lemma amend_entry_frame:
  "medicines ((delete_items (restored db sid) sid)\<lparr>sales := x\<rparr>) = medicines (restored db sid)"
  "integer_max ((delete_items (restored db sid) sid)\<lparr>sales := x\<rparr>) = integer_max db"
  "sale_items ((delete_items (restored db sid) sid)\<lparr>sales := x\<rparr>) =
     filter (\<lambda>i. item_sale i \<noteq> sid) (sale_items db)"
  "integer_max (restored db sid) = integer_max db"
  by (simp_all add: delete_items_def restored_def)

text \<open>
  An amendment succeeds when the stock can be given back, the new cart is within the
  restored stock and every value to be written is in the range of its column.
\<close>

lemma amend_succeeds:
  assumes req: "amend_request req sid" and s: "sales db sid = Some s"
    and nn: "nonneg_stock db" and ret: "returnable db sid"
    and rr: "stock_in_range (restored db sid)"
    and ws: "within_stock (restored db sid) (cart_data req)" and st: "storable db req"
    and old: "IntegerField_range db (total_amount s)"
  shows "\<exists>db'. pos_view db req = (db', JsonResponse_success sid)"
proof -
  let ?db2 = "(delete_items (restored db sid) sid)\<lparr>sales := (sales db)(sid \<mapsto> filled_sale s req)\<rparr>"
  have post: "req_method req = POST" "user_has_permission (req_user req) ''add_sale''"
    using req by (simp_all add: amend_request_def)
  have fee: "IntegerField_range db (data_delivery_fee req)"
    and lr: "lines_in_range db (cart_data req)"
    and tot: "IntegerField_range db (cart_total (cart_data req) + data_delivery_fee req)"
    using st by (simp_all add: storable_def)
  have r: "return_to_stock db (items db sid) = Inr (restored db sid)"
    using nn ret rr by (rule return_to_stock_restored)
  have o: "open_sale db req = Inr (delete_items (restored db sid) sid, sid, s)"
    unfolding amend_open_sale [OF req s] r by simp
  have sv: "Sale_save (delete_items (restored db sid) sid) sid (filled_sale s req) = Inr ?db2"
    unfolding Sale_save_Inr using fee old
    by (simp add: filled_sale_def delete_items_def restored_def IntegerField_range_def)
  have "within_stock ?db2 (cart_data req)"
    using ws within_stock_cong [OF amend_entry_frame(1)] by blast
  moreover have "lines_in_range ?db2 (cart_data req)"
    using lr lines_in_range_cong [OF amend_entry_frame(2)] by blast
  moreover have "stock_in_range ?db2"
    using rr by (simp add: stock_in_range_def delete_items_def restored_def)
  ultimately obtain db3 where c: "sell_cart sid ?db2 (cart_data req) = Inr db3"
    using sell_cart_total by blast
  have si3: "sale_items db3 =
      filter (\<lambda>i. item_sale i \<noteq> sid) (sale_items db) @ map (line_item sid) (cart_data req)"
    using sell_cart_Inr [OF c] by (simp add: amend_entry_frame)
  have it: "items db3 sid = map (line_item sid) (cart_data req)"
    unfolding items_def si3 items_after_amend by simp
  have im: "integer_max db3 = integer_max db"
    using sell_cart_Inr [OF c] by (simp add: amend_entry_frame)
  have "\<exists>db4. update_total db3 sid (filled_sale s req) = Inr db4"
    unfolding update_total_Inr it subtotal_line_items
    using fee tot IntegerField_range_cong [OF im] by (simp add: filled_sale_def)
  then obtain db4 where u: "update_total db3 sid (filled_sale s req) = Inr db4" by blast
  have "atomic_block db req = Inr (db4, sid)"
    unfolding atomic_block_Inr using o sv c u by blast
  then show ?thesis using post by (simp add: pos_view_POST)
qed








text \<open>
  C10. A successful amendment leaves the sale with \<open>created_by\<close> set to the user who
  amended it, whoever created it, and with the \<open>created_at\<close> it had.
\<close>

theorem amend_overwrites_created_by_keeps_created_at:
  assumes req: "amend_request req sid" and s: "sales db sid = Some s"
    and pv: "pos_view db req = (db', JsonResponse_success sid')"
  shows "sid' = sid \<and>
         (\<exists>s'. sales db' sid = Some s' \<and>
               created_by s' = Some (user_pk (req_user req)) \<and>
               created_at s' = created_at s)"
proof -
  from amend_success [OF req s pos_view_success [OF pv]] obtain db3 where
    sid: "sid' = sid" and u: "update_total db3 sid (filled_sale s req) = Inr db'"
    by blast
  from u have "sales db' sid =
       Some ((filled_sale s req)\<lparr>total_amount :=
               sum_list (map subtotal (items db3 sid)) + delivery_fee (filled_sale s req)\<rparr>)"
    unfolding update_total_Inr by simp
  with sid show ?thesis by (simp add: filled_sale_def)
qed

text \<open>
  The sale that the pharmacist (user 1) created at time 7 is amended by the manager
  (user 2) at time 9.
\<close>

theorem amend_overwrites_created_by_keeps_created_at_witness:
  "amend_request ((sell manager [line 1 5 500] 200 (Some 1))\<lparr>req_now := 9\<rparr>) 1 \<and>
   map_option created_by (sales store_sold 1) = Some (Some 1) \<and>
   map_option created_at (sales store_sold 1) = Some 7 \<and>
   (\<exists>db' s'. pos_view store_sold ((sell manager [line 1 5 500] 200 (Some 1))\<lparr>req_now := 9\<rparr>) =
        (db', JsonResponse_success 1) \<and>
      sales db' 1 = Some s' \<and> created_by s' = Some 2 \<and> created_at s' = 7)"
proof -
  let ?req = "(sell manager [line 1 5 500] 200 (Some 1))\<lparr>req_now := 9\<rparr>"
  let ?s = "\<lparr>created_at = 7, created_by = Some 1, delivery_fee = 100,
             total_amount = 1600, customer_name = [], customer_phone = [],
             customer_address = []\<rparr>"
  have h1: "amend_request ?req 1"
    by (simp add: amend_request_def amending_def user_has_permission_def is_admin_def concrete_defs)
  have h2: "sales store_sold 1 = Some ?s" by (simp add: concrete_defs)
  obtain db' where h3: "pos_view store_sold ?req = (db', JsonResponse_success 1)"
    by (simp add: pos_view_def atomic_block_def open_sale_def amending_def sell_line_def
      SaleItem_objects_create_def save_quantity_def Sale_save_def update_total_def delete_items_def
      items_def subtotal_def IntegerField_range_def user_has_permission_def is_admin_def
      concrete_defs Let_def)
  from amend_overwrites_created_by_keeps_created_at [OF h1 h2 h3]
  obtain s' where "sales db' 1 = Some s'" "created_by s' = Some (user_pk (req_user ?req))"
    "created_at s' = created_at ?s"
    by blast
  then have "sales db' 1 = Some s' \<and> created_by s' = Some 2 \<and> created_at s' = 7"
    by (simp add: concrete_defs)
  with h1 h2 h3 show ?thesis by auto
qed

section \<open>Stock is never negative\<close>

lemma save_quantity_nonneg:
  "nonneg_stock db \<Longrightarrow> save_quantity db pk d = Inr db' \<Longrightarrow> nonneg_stock db'"
  by (auto simp: save_quantity_Inr nonneg_stock_def split: if_splits)

lemma sell_line_nonneg:
  "nonneg_stock db \<Longrightarrow> sell_line sid db l = Inr db' \<Longrightarrow> nonneg_stock db'"
  by (auto simp: sell_line_Inr nonneg_stock_def split: if_splits)

lemma sell_cart_nonneg:
  "nonneg_stock db \<Longrightarrow> sell_cart sid db ls = Inr db' \<Longrightarrow> nonneg_stock db'"
proof (induction ls arbitrary: db)
  case Nil
  then show ?case by simp
next
  case (Cons l ls)
  from Cons.prems(2) obtain db1 where "sell_line sid db l = Inr db1" "sell_cart sid db1 ls = Inr db'"
    unfolding sell_cart_Cons_Inr by blast
  with Cons.IH [of db1] Cons.prems(1) show ?case
    using sell_line_nonneg by blast
qed

lemma return_to_stock_nonneg:
  "nonneg_stock db \<Longrightarrow> return_to_stock db its = Inr db' \<Longrightarrow> nonneg_stock db'"
proof (induction its arbitrary: db)
  case Nil
  then show ?case by simp
next
  case (Cons i its)
  from Cons.prems(2) obtain db1 where "save_quantity db (item_medicine i) (item_quantity i) = Inr db1"
    "return_to_stock db1 its = Inr db'"
    by (auto split: option.splits sum.splits)
  with Cons.IH [of db1] Cons.prems(1) show ?case
    using save_quantity_nonneg by blast
qed

lemma nonneg_stock_cong: "medicines db = medicines db' \<Longrightarrow> nonneg_stock db = nonneg_stock db'"
  by (simp add: nonneg_stock_def)

lemma open_sale_nonneg:
  assumes nn: "nonneg_stock db" and o: "open_sale db req = Inr (db1, sid, s)"
  shows "nonneg_stock db1"
proof (cases "amending req")
  case True
  with o obtain dbr where r: "return_to_stock db (items db sid) = Inr dbr"
    and db1: "db1 = delete_items dbr sid"
    by (auto simp: open_sale_def split: option.splits sum.splits)
  have "medicines db1 = medicines dbr" by (simp add: db1 delete_items_def)
  from nonneg_stock_cong [OF this] return_to_stock_nonneg [OF nn r] show ?thesis by simp
next
  case False
  with o have "medicines db1 = medicines db"
    unfolding open_sale_new [OF False] by auto
  from nonneg_stock_cong [OF this] nn show ?thesis by simp
qed

lemma atomic_block_nonneg:
  assumes nn: "nonneg_stock db" and ab: "atomic_block db req = Inr (db', sid)"
  shows "nonneg_stock db'"
proof -
  from ab obtain db1 s db2 db3 where
    o: "open_sale db req = Inr (db1, sid, s)"
    and sv: "Sale_save db1 sid (filled_sale s req) = Inr db2"
    and c: "sell_cart sid db2 (cart_data req) = Inr db3"
    and u: "update_total db3 sid (filled_sale s req) = Inr db'"
    unfolding atomic_block_Inr by blast
  from sv have "medicines db2 = medicines db1" unfolding Sale_save_Inr by simp
  from nonneg_stock_cong [OF this] open_sale_nonneg [OF nn o] have "nonneg_stock db2" by simp
  from sell_cart_nonneg [OF this c] have n3: "nonneg_stock db3" .
  from u have "medicines db' = medicines db3" unfolding update_total_Inr by simp
  from nonneg_stock_cong [OF this] n3 show ?thesis by simp
qed

lemma pos_view_nonneg: "nonneg_stock db \<Longrightarrow> nonneg_stock (fst (pos_view db req))"
  by (auto simp: pos_view_def split: sum.splits dest: atomic_block_nonneg)

lemma serve_nonneg: "nonneg_stock db \<Longrightarrow> nonneg_stock (serve db reqs)"
  unfolding serve_def by (induction reqs arbitrary: db) (simp_all add: pos_view_nonneg)

text \<open>
  The view's own check is what keeps a sold line from overdrawing: the \<open>IntegrityError\<close>
  of the store is met by a line only when its quantity is negative.
\<close>

lemma sell_line_IntegrityError: "sell_line sid db l = Inl IntegrityError \<Longrightarrow> line_quantity l < 0"
  by (auto simp: sell_line_def SaleItem_objects_create_def save_quantity_def Let_def
      split: option.splits if_splits)

text \<open>
  C8. Starting from a store in which every stock is at least 0, whatever requests the
  view serves one after the other, new sales or amendments, accepted or refused, every
  stock is at least 0 after each of them.
\<close>

theorem stock_never_negative:
  "nonneg_stock db \<Longrightarrow> nonneg_stock (serve db (take n reqs))"
  by (rule serve_nonneg)

theorem stock_never_negative_witness:
  "nonneg_stock store_AB \<and>
   nonneg_stock (serve store_AB (take 2
      [sell pharmacist [line 1 3 500] 100 None,
       sell pharmacist [line 1 11 500] 200 (Some 1),
       sell manager [line 1 5 500, line 2 2 100] 200 (Some 1)]))"
proof -
  have h: "nonneg_stock store_AB"
    by (auto simp: nonneg_stock_def concrete_defs split: if_splits)
  from stock_never_negative [OF h] h show ?thesis by blast
qed

section \<open>The assumptions on the store are kept by the view\<close>

text \<open>
  Referential integrity, that the items of every sale can be given back, and that the
  stock is in range hold of a store without sales and are kept by every request that
  the view serves.
\<close>

lemma open_sale_integrity:
  assumes ri: "referential_integrity db" and o: "open_sale db req = Inr (db1, sid, s)"
  shows "referential_integrity (db1\<lparr>sales := (sales db1)(sid \<mapsto> s')\<rparr>) \<and>
         sid \<in> dom (sales (db1\<lparr>sales := (sales db1)(sid \<mapsto> s')\<rparr>))"
proof (cases "amending req")
  case True
  with o obtain s0 dbr where sid: "sales db sid = Some s0"
    and r: "return_to_stock db (items db sid) = Inr dbr"
    and db1: "db1 = delete_items dbr sid"
    by (auto simp: open_sale_def split: option.splits sum.splits)
  from return_to_stock_Inr [OF r] have "sales dbr = sales db" "sale_items dbr = sale_items db"
    "next_sale_pk dbr = next_sale_pk db"
    by simp_all
  with ri sid show ?thesis
    by (auto simp: referential_integrity_def db1 delete_items_def)
next
  case False
  with o have "db1 = db\<lparr>sales := (sales db)(next_sale_pk db \<mapsto> s), next_sale_pk := Suc (next_sale_pk db)\<rparr>"
    and "sid = next_sale_pk db"
    unfolding open_sale_new [OF False] by auto
  with ri show ?thesis
    by (auto simp: referential_integrity_def less_Suc_eq)
qed

lemma pos_view_referential_integrity:
  assumes ri: "referential_integrity db"
  shows "referential_integrity (fst (pos_view db req))"
proof (cases "\<exists>db' sid. pos_view db req = (db', JsonResponse_success sid)")
  case True
  then obtain db' sid where pv: "pos_view db req = (db', JsonResponse_success sid)" by blast
  from pos_view_success [OF pv] obtain db1 s db2 db3 where
    o: "open_sale db req = Inr (db1, sid, s)"
    and sv: "Sale_save db1 sid (filled_sale s req) = Inr db2"
    and c: "sell_cart sid db2 (cart_data req) = Inr db3"
    and u: "update_total db3 sid (filled_sale s req) = Inr db'"
    unfolding atomic_block_Inr by blast
  from sv have db2: "db2 = db1\<lparr>sales := (sales db1)(sid \<mapsto> filled_sale s req)\<rparr>"
    unfolding Sale_save_Inr by simp
  note i2 = open_sale_integrity [OF ri o, of "filled_sale s req", folded db2]
  note eff = sell_cart_Inr [OF c]
  have "referential_integrity db3"
    using i2 eff by (auto simp: referential_integrity_def line_item_def)
  moreover have "sid \<in> dom (sales db3)" using i2 eff by simp
  moreover from u have "sale_items db' = sale_items db3" "next_sale_pk db' = next_sale_pk db3"
    "dom (sales db') = insert sid (dom (sales db3))"
    unfolding update_total_Inr by auto
  ultimately have "referential_integrity db'"
    by (auto simp: referential_integrity_def)
  with pv show ?thesis by simp
next
  case False
  then have "fst (pos_view db req) = db"
    by (auto simp: pos_view_def split: if_splits sum.splits)
  with ri show ?thesis by simp
qed

lemma referential_integrity_empty:
  "referential_integrity \<lparr>medicines = ms, sales = Map.empty, sale_items = [], next_sale_pk = n,
     integer_max = k\<rparr>"
  by (simp add: referential_integrity_def)

lemma sell_cart_returnable:
  assumes "sell_cart sid db ls = Inr db'"
    and "\<forall>i \<in> set (sale_items db). 0 \<le> item_quantity i \<and> medicines db (item_medicine i) \<noteq> None"
  shows "\<forall>i \<in> set (sale_items db'). 0 \<le> item_quantity i \<and> medicines db' (item_medicine i) \<noteq> None"
  using assms
proof (induction ls arbitrary: db)
  case Nil
  then show ?case by simp
next
  case (Cons l ls)
  from Cons.prems(1) obtain db1 where l: "sell_line sid db l = Inr db1"
    and r: "sell_cart sid db1 ls = Inr db'"
    unfolding sell_cart_Cons_Inr by blast
  from l Cons.prems(2)
  have "\<forall>i \<in> set (sale_items db1). 0 \<le> item_quantity i \<and> medicines db1 (item_medicine i) \<noteq> None"
    unfolding sell_line_Inr by (auto simp: line_item_def)
  from Cons.IH [OF r this] show ?case .
qed

lemma pos_view_returnable:
  assumes "\<forall>i \<in> set (sale_items db). 0 \<le> item_quantity i \<and> medicines db (item_medicine i) \<noteq> None"
  shows "\<forall>i \<in> set (sale_items (fst (pos_view db req))).
           0 \<le> item_quantity i \<and> medicines (fst (pos_view db req)) (item_medicine i) \<noteq> None"
proof (cases "\<exists>db' sid. pos_view db req = (db', JsonResponse_success sid)")
  case True
  then obtain db' sid where pv: "pos_view db req = (db', JsonResponse_success sid)" by blast
  from pos_view_success [OF pv] obtain db1 s db2 db3 where
    o: "open_sale db req = Inr (db1, sid, s)"
    and sv: "Sale_save db1 sid (filled_sale s req) = Inr db2"
    and c: "sell_cart sid db2 (cart_data req) = Inr db3"
    and u: "update_total db3 sid (filled_sale s req) = Inr db'"
    unfolding atomic_block_Inr by blast
  have "\<forall>i \<in> set (sale_items db1). 0 \<le> item_quantity i \<and> medicines db1 (item_medicine i) \<noteq> None"
    using o assms
    by (auto simp: open_sale_def Sale_objects_create_def Let_def delete_items_def
        split: if_splits option.splits sum.splits dest!: return_to_stock_Inr)
  moreover from sv have "sale_items db2 = sale_items db1" "medicines db2 = medicines db1"
    unfolding Sale_save_Inr by simp_all
  ultimately have "\<forall>i \<in> set (sale_items db2).
       0 \<le> item_quantity i \<and> medicines db2 (item_medicine i) \<noteq> None"
    by simp
  from sell_cart_returnable [OF c this]
  have "\<forall>i \<in> set (sale_items db3). 0 \<le> item_quantity i \<and> medicines db3 (item_medicine i) \<noteq> None" .
  moreover from u have "sale_items db' = sale_items db3" "medicines db' = medicines db3"
    unfolding update_total_Inr by simp_all
  ultimately show ?thesis using pv by simp
next
  case False
  then have "fst (pos_view db req) = db"
    by (auto simp: pos_view_def split: if_splits sum.splits)
  with assms show ?thesis by simp
qed

lemma returnable_if_all:
  "\<forall>i \<in> set (sale_items db). 0 \<le> item_quantity i \<and> medicines db (item_medicine i) \<noteq> None \<Longrightarrow>
   returnable db sid"
  by (simp add: returnable_def items_def)

text \<open>Every write of a stock passes the upper bound of the column.\<close>

lemma save_quantity_in_range:
  "stock_in_range db \<Longrightarrow> save_quantity db pk d = Inr db' \<Longrightarrow> stock_in_range db'"
  by (auto simp: save_quantity_Inr stock_in_range_def split: if_splits)

lemma sell_cart_in_range:
  "stock_in_range db \<Longrightarrow> sell_cart sid db ls = Inr db' \<Longrightarrow> stock_in_range db'"
proof (induction ls arbitrary: db)
  case Nil
  then show ?case by simp
next
  case (Cons l ls)
  from Cons.prems(2) obtain db1 where l: "sell_line sid db l = Inr db1"
    and r: "sell_cart sid db1 ls = Inr db'"
    unfolding sell_cart_Cons_Inr by blast
  from l Cons.prems(1) have "stock_in_range db1"
    unfolding sell_line_Inr by (auto simp: stock_in_range_def split: if_splits)
  from Cons.IH [OF this r] show ?case .
qed

section \<open>What the view does not check\<close>

text \<open>
  C4, as the code has it. A new sale with two lines of the same medicine, neither
  quantity negative and every value to be written in the range of its column, succeeds
  exactly when the two quantities together are within the starting stock, and is
  refused with the stock error otherwise: on the second line, checked against what the
  first line left, when the first quantity alone is within stock, and on the first line
  already when it is not.
\<close>

theorem two_lines_checked_cumulatively:
  assumes req: "apply_request req" and ri: "referential_integrity db"
    and cart: "cart_data req = [l1, l2]"
    and same: "line_id l1 = pk" "line_id l2 = pk"
    and m: "medicines db pk = Some m"
    and q: "0 \<le> line_quantity l1" "0 \<le> line_quantity l2"
    and st: "storable db req" and sr: "stock_in_range db"
  shows "(line_quantity l1 + line_quantity l2 \<le> quantity m \<longrightarrow>
            (\<exists>db' sid. pos_view db req = (db', JsonResponse_success sid))) \<and>
         (quantity m < line_quantity l1 + line_quantity l2 \<longrightarrow>
            pos_view db req =
              (db, JsonResponse_error (ValueError (''Not enough stock for '' @ name m @ ''.'')))) \<and>
         (quantity m < line_quantity l1 + line_quantity l2 \<and> line_quantity l1 \<le> quantity m \<longrightarrow>
            refused_on_second_line (next_sale_pk db) (loop_entry db req) l1 l2) \<and>
         (quantity m < line_quantity l1 \<longrightarrow>
            sell_line (next_sale_pk db) (loop_entry db req) l1 =
              Inl (ValueError (''Not enough stock for '' @ name m @ ''.'')))"
proof -
  let ?sid = "next_sale_pk db"
  let ?db2 = "loop_entry db req"
  let ?err = "ValueError (''Not enough stock for '' @ name m @ ''.'')"
  have post: "req_method req = POST" "user_has_permission (req_user req) ''add_sale''"
    and na: "\<not> amending req"
    using req by (simp_all add: apply_request_def)
  have fee: "IntegerField_range db (data_delivery_fee req)"
    and lr: "IntegerField_range db (line_price l1)" "IntegerField_range db (line_price l2)"
    using st by (simp_all add: storable_def lines_in_range_def cart)
  note ab = new_sale_atomic_block [OF na fee]
  have m2: "medicines ?db2 pk = Some m"
    using m by (simp add: loop_entry_frame)
  have qm: "quantity m \<le> int (integer_max db)"
    using sr m by (auto simp: stock_in_range_def)
  have ok: "\<exists>db' sid. pos_view db req = (db', JsonResponse_success sid)"
    if "line_quantity l1 + line_quantity l2 \<le> quantity m"
  proof -
    have "within_stock db (cart_data req)"
      unfolding within_stock_def cart using that q same m
      by (auto simp: less_Suc_eq requested_def)
    from new_sale_succeeds [OF req ri this st sr] show ?thesis by blast
  qed
  have first: "sell_line ?sid ?db2 l1 = Inl ?err" if "quantity m < line_quantity l1"
    using that m2 same by (simp add: sell_line_def Let_def)
  have second: "refused_on_second_line ?sid ?db2 l1 l2"
    and second': "sell_cart ?sid ?db2 [l1, l2] = Inl ?err"
    if "quantity m < line_quantity l1 + line_quantity l2" "line_quantity l1 \<le> quantity m"
  proof -
    define db1 where "db1 = ?db2\<lparr>sale_items := sale_items ?db2 @ [line_item ?sid l1],
        medicines := (medicines ?db2)(line_id l1 \<mapsto> m\<lparr>quantity := quantity m - line_quantity l1\<rparr>)\<rparr>"
    have s1: "sell_line ?sid ?db2 l1 = Inr db1"
      unfolding sell_line_Inr db1_def using that q m2 same qm lr
      by (simp add: loop_entry_frame IntegerField_range_def)
    have s2: "sell_line ?sid db1 l2 = Inl ?err"
      using that same by (simp add: sell_line_def Let_def db1_def)
    show "refused_on_second_line ?sid ?db2 l1 l2"
      by (simp add: refused_on_second_line_def s1 s2)
    show "sell_cart ?sid ?db2 [l1, l2] = Inl ?err"
      by (simp add: s1 s2)
  qed
  have bad: "pos_view db req = (db, JsonResponse_error ?err)"
    if "quantity m < line_quantity l1 + line_quantity l2"
  proof -
    have "sell_cart ?sid ?db2 (cart_data req) = Inl ?err"
    proof (cases "line_quantity l1 \<le> quantity m")
      case True
      with second' that show ?thesis by (simp add: cart)
    next
      case False
      with first show ?thesis by (simp add: cart)
    qed
    then show ?thesis using ab post by (simp add: pos_view_POST)
  qed
  from ok bad second first show ?thesis by blast
qed

theorem two_lines_checked_cumulatively_witness:
  "apply_request (sell pharmacist [line 1 6 500, line 1 5 500] 0 None) \<and>
   referential_integrity store_AB \<and> stock_in_range store_AB \<and>
   storable store_AB (sell pharmacist [line 1 6 500, line 1 5 500] 0 None) \<and>
   storable store_AB (sell pharmacist [line 1 6 500, line 1 4 500] 0 None) \<and>
   medicines store_AB 1 = Some medicine_A \<and>
   quantity medicine_A < 6 + 5 \<and> 6 \<le> quantity medicine_A \<and>
   pos_view store_AB (sell pharmacist [line 1 6 500, line 1 5 500] 0 None) =
     (store_AB, JsonResponse_error (ValueError ''Not enough stock for A.'')) \<and>
   refused_on_second_line 1 (loop_entry store_AB (sell pharmacist [line 1 6 500, line 1 5 500] 0 None))
     (line 1 6 500) (line 1 5 500) \<and>
   (\<exists>db' sid. pos_view store_AB (sell pharmacist [line 1 6 500, line 1 4 500] 0 None) =
       (db', JsonResponse_success sid))"
proof -
  let ?bad = "sell pharmacist [line 1 6 500, line 1 5 500] 0 None"
  let ?good = "sell pharmacist [line 1 6 500, line 1 4 500] 0 None"
  have h1: "apply_request (sell pharmacist ls 0 None)" for ls
    by (simp add: apply_request_def amending_def user_has_permission_def is_admin_def concrete_defs)
  have ri: "referential_integrity store_AB"
    by (simp add: referential_integrity_def concrete_defs)
  have sr: "stock_in_range store_AB"
    by (auto simp: stock_in_range_def concrete_defs split: if_splits)
  have st1: "storable store_AB ?bad" and st2: "storable store_AB ?good"
    by (simp_all add: storable_def lines_in_range_def cart_total_def IntegerField_range_def
        concrete_defs)
  have c1: "cart_data ?bad = [line 1 6 500, line 1 5 500]"
    and c2: "cart_data ?good = [line 1 6 500, line 1 4 500]"
    by (simp_all add: sell_def)
  have ids: "line_id (line 1 q p) = 1" for q p by (simp add: line_def)
  have m: "medicines store_AB 1 = Some medicine_A" by (simp add: concrete_defs)
  have q: "0 \<le> line_quantity (line 1 6 500)" "0 \<le> line_quantity (line 1 5 500)"
    "0 \<le> line_quantity (line 1 4 500)"
    by (simp_all add: line_def)
  have v: "line_quantity (line 1 6 500) = 6" "line_quantity (line 1 5 500) = 5"
    "line_quantity (line 1 4 500) = 4" "quantity medicine_A = 10" "name medicine_A = ''A''"
    "next_sale_pk store_AB = 1"
    by (simp_all add: concrete_defs)
  note bad = two_lines_checked_cumulatively [OF h1 ri c1 ids ids m q(1) q(2) st1 sr]
  note good = two_lines_checked_cumulatively [OF h1 ri c2 ids ids m q(1) q(3) st2 sr]
  from bad good h1 ri sr st1 st2 m show ?thesis unfolding v by simp
qed

text \<open>
  With stock 10, the lines 11 and 1 of the same medicine exceed the stock together, and
  the refusal comes on the first line: the second is never reached.
\<close>

theorem two_lines_refused_on_first_line:
  "line_id (line 1 11 500) = line_id (line 1 1 500) \<and>
   medicines store_AB (line_id (line 1 11 500)) = Some medicine_A \<and>
   quantity medicine_A < line_quantity (line 1 11 500) + line_quantity (line 1 1 500) \<and>
   pos_view store_AB (sell pharmacist [line 1 11 500, line 1 1 500] 0 None) =
     (store_AB, JsonResponse_error (ValueError ''Not enough stock for A.'')) \<and>
   sell_line 1 (loop_entry store_AB (sell pharmacist [line 1 11 500, line 1 1 500] 0 None))
     (line 1 11 500) = Inl (ValueError ''Not enough stock for A.'') \<and>
   \<not> refused_on_second_line 1
       (loop_entry store_AB (sell pharmacist [line 1 11 500, line 1 1 500] 0 None))
       (line 1 11 500) (line 1 1 500)"
  by (simp add: pos_view_def atomic_block_def open_sale_def amending_def sell_line_def
      refused_on_second_line_def loop_entry_def filled_sale_def
      SaleItem_objects_create_def save_quantity_def Sale_objects_create_def Sale_save_def
      IntegerField_range_def user_has_permission_def is_admin_def concrete_defs Let_def)

text \<open>
  C6, as the code has it. The view validates no sign. A request whose cart has a line
  of negative quantity is refused, whether it creates or amends a sale, and the store is
  left as it was received; the refusal comes from inside the transaction, which is
  rolled back. A quantity of zero, a negative price and a negative delivery fee are not
  refused.
\<close>

theorem negative_quantity_is_refused:
  assumes post: "req_method req = POST" "user_has_permission (req_user req) ''add_sale''"
    and l: "l \<in> set (cart_data req)" and neg: "line_quantity l < 0"
  shows "\<exists>e. pos_view db req = (db, JsonResponse_error e)"
proof (cases "atomic_block db req")
  case (Inl e)
  then show ?thesis using post by (simp add: pos_view_POST)
next
  case (Inr r)
  obtain db' sid where "r = (db', sid)" by (cases r)
  with Inr have "atomic_block db req = Inr (db', sid)" by simp
  then obtain db2 db3 where
    "sell_cart sid db2 (cart_data req) = Inr db3"
    unfolding atomic_block_Inr by blast
  from sell_cart_nonneg_lines [OF this l] neg show ?thesis by simp
qed

theorem negative_quantity_is_refused_witness:
  "req_method (sell pharmacist [line 1 3 500, line 2 (- 1) 100] 0 None) = POST \<and>
   user_has_permission (req_user (sell pharmacist [line 1 3 500, line 2 (- 1) 100] 0 None)) ''add_sale'' \<and>
   line 2 (- 1) 100 \<in> set (cart_data (sell pharmacist [line 1 3 500, line 2 (- 1) 100] 0 None)) \<and>
   line_quantity (line 2 (- 1) 100) < 0 \<and>
   pos_view store_AB (sell pharmacist [line 1 3 500, line 2 (- 1) 100] 0 None) =
     (store_AB, JsonResponse_error IntegrityError)"
proof -
  let ?req = "sell pharmacist [line 1 3 500, line 2 (- 1) 100] 0 None"
  have h1: "req_method ?req = POST" by (simp add: sell_def)
  have h2: "user_has_permission (req_user ?req) ''add_sale''"
    by (simp add: user_has_permission_def is_admin_def concrete_defs)
  have h3: "line 2 (- 1) 100 \<in> set (cart_data ?req)" by (simp add: sell_def)
  have h4: "line_quantity (line 2 (- 1) 100) < 0" by (simp add: line_def)
  from negative_quantity_is_refused [OF h1 h2 h3 h4, of store_AB]
  obtain e where e: "pos_view store_AB ?req = (store_AB, JsonResponse_error e)" by blast
  have "snd (pos_view store_AB ?req) = JsonResponse_error IntegrityError"
    by (simp add: pos_view_def atomic_block_def open_sale_def amending_def sell_line_def
      SaleItem_objects_create_def save_quantity_def Sale_objects_create_def Sale_save_def
      IntegerField_range_def user_has_permission_def is_admin_def concrete_defs Let_def)
  with e have "e = IntegrityError" by simp
  with e h1 h2 h3 h4 show ?thesis by simp
qed

text \<open>
  A line of quantity 0 at the price -500 with a delivery fee of -100 is accepted: the
  sale and its item are stored, with a total of -100.
\<close>

theorem malformed_input_is_accepted:
  "line_quantity (line 1 0 (- 500)) \<le> 0 \<and> line_price (line 1 0 (- 500)) < 0 \<and>
   data_delivery_fee (sell pharmacist [line 1 0 (- 500)] (- 100) None) < 0 \<and>
   snd (pos_view store_AB (sell pharmacist [line 1 0 (- 500)] (- 100) None)) =
     JsonResponse_success 1 \<and>
   sale_items (fst (pos_view store_AB (sell pharmacist [line 1 0 (- 500)] (- 100) None))) =
     [\<lparr>item_sale = 1, item_medicine = 1, item_quantity = 0, price_at_sale = - 500\<rparr>] \<and>
   map_option total_amount
     (sales (fst (pos_view store_AB (sell pharmacist [line 1 0 (- 500)] (- 100) None))) 1) =
     Some (- 100)"
  by (simp add: pos_view_def atomic_block_def open_sale_def amending_def sell_line_def
      SaleItem_objects_create_def save_quantity_def Sale_objects_create_def Sale_save_def
      update_total_def items_def subtotal_def IntegerField_range_def
      user_has_permission_def is_admin_def concrete_defs Let_def)

text \<open>
  C7, as the code has it. The items that a successful request adds to the store are the
  lines of its cart, after the items kept from before (all of them for a new sale, those
  of other sales for an amendment): \<open>price_at_sale\<close> is the price that the cart line
  carries, and the selling price of the medicine is not read. A later update of a
  medicine, its selling price included, leaves every item as it is.
\<close>

theorem price_at_sale_is_cart_price:
  assumes "pos_view db req = (db', JsonResponse_success sid)"
  shows "sale_items db' =
           (if amending req then filter (\<lambda>i. item_sale i \<noteq> sid) (sale_items db)
            else sale_items db) @ map (line_item sid) (cart_data req) \<and>
         map price_at_sale (map (line_item sid) (cart_data req)) =
           map line_price (cart_data req) \<and>
         sale_items (MedicineUpdateView_post db' u pk f) = sale_items db'"
proof -
  from pos_view_success [OF assms] obtain db1 s db2 db3 where
    o: "open_sale db req = Inr (db1, sid, s)"
    and sv: "Sale_save db1 sid (filled_sale s req) = Inr db2"
    and c: "sell_cart sid db2 (cart_data req) = Inr db3"
    and u: "update_total db3 sid (filled_sale s req) = Inr db'"
    unfolding atomic_block_Inr by blast
  have i1: "sale_items db1 =
      (if amending req then filter (\<lambda>i. item_sale i \<noteq> sid) (sale_items db) else sale_items db)"
    using o
    by (auto simp: open_sale_def Sale_objects_create_def Let_def delete_items_def
        split: if_splits option.splits sum.splits dest!: return_to_stock_Inr)
  from sv have i2: "sale_items db2 = sale_items db1" unfolding Sale_save_Inr by simp
  from u have i4: "sale_items db' = sale_items db3" unfolding update_total_Inr by simp
  have i3: "sale_items db' = sale_items db1 @ map (line_item sid) (cart_data req)"
    using sell_cart_Inr [OF c] i2 i4 by simp
  have p: "map price_at_sale (map (line_item sid) (cart_data req)) = map line_price (cart_data req)"
    by (simp add: line_item_def comp_def)
  have u: "sale_items (MedicineUpdateView_post db' u pk f) = sale_items db'"
    by (simp add: MedicineUpdateView_post_def split: option.splits prod.splits)
  from i1 i3 p u show ?thesis by simp
qed

theorem price_at_sale_is_cart_price_witness:
  "pos_view store_AB (sell pharmacist [line 1 3 500] 100 None) =
     (store_sold, JsonResponse_success 1) \<and>
   map price_at_sale (sale_items store_sold) = [500] \<and>
   map price_at_sale
     (sale_items (MedicineUpdateView_post store_sold manager 1
        \<lparr>form_name = ''A'', form_quantity = Some 7, form_purchase_price = Some 300,
         form_selling_price = Some 650, form_rest_is_valid = True\<rparr>)) = [500] \<and>
   map_option selling_price
     (medicines (MedicineUpdateView_post store_sold manager 1
        \<lparr>form_name = ''A'', form_quantity = Some 7, form_purchase_price = Some 300,
         form_selling_price = Some 650, form_rest_is_valid = True\<rparr>) 1) = Some 650"
proof -
  let ?req = "sell pharmacist [line 1 3 500] 100 None"
  let ?f = "\<lparr>form_name = ''A'', form_quantity = Some 7, form_purchase_price = Some 300,
         form_selling_price = Some 650, form_rest_is_valid = True\<rparr>"
  note h = sale_of_3_A
  note t = price_at_sale_is_cart_price [OF h, of manager 1 ?f]
  have a: "\<not> amending ?req" by (simp add: amending_def sell_def)
  have c: "map line_price (cart_data ?req) = [500]" "sale_items store_AB = []"
    by (simp_all add: concrete_defs)
  from t have t1: "sale_items store_sold =
      (if amending ?req then filter (\<lambda>i. item_sale i \<noteq> 1) (sale_items store_AB)
       else sale_items store_AB) @ map (line_item 1) (cart_data ?req)"
    and t2: "map price_at_sale (map (line_item 1) (cart_data ?req)) = map line_price (cart_data ?req)"
    and t3: "sale_items (MedicineUpdateView_post store_sold manager 1 ?f) = sale_items store_sold"
    by blast+
  have "sale_items store_sold = map (line_item 1) (cart_data ?req)"
    using t1 a c(2) by simp
  then have "map price_at_sale (sale_items store_sold) =
      map price_at_sale (map (line_item 1) (cart_data ?req))"
    by (rule arg_cong)
  also have "\<dots> = map line_price (cart_data ?req)" by (rule t2)
  also have "\<dots> = [500]" by (rule c(1))
  finally have p: "map price_at_sale (sale_items store_sold) = [500]" .
  have p2: "map price_at_sale (sale_items (MedicineUpdateView_post store_sold manager 1 ?f)) = [500]"
    unfolding t3 by (rule p)
  have p3: "map_option selling_price
     (medicines (MedicineUpdateView_post store_sold manager 1 ?f) 1) = Some 650"
    by (simp add: MedicineUpdateView_post_def is_valid_def IntegerField_range_def
        user_has_permission_def is_admin_def concrete_defs)
  from h p p2 p3 show ?thesis by simp
qed

text \<open>
  A cart line priced 1 for a medicine whose selling price is 500 is sold at 1.
\<close>

theorem price_at_sale_differs_from_selling_price:
  "map_option selling_price (medicines store_AB 1) = Some 500 \<and>
   snd (pos_view store_AB (sell pharmacist [line 1 3 1] 0 None)) = JsonResponse_success 1 \<and>
   sale_items (fst (pos_view store_AB (sell pharmacist [line 1 3 1] 0 None))) =
     [\<lparr>item_sale = 1, item_medicine = 1, item_quantity = 3, price_at_sale = 1\<rparr>]"
  by (simp add: pos_view_def atomic_block_def open_sale_def amending_def sell_line_def
      SaleItem_objects_create_def save_quantity_def Sale_objects_create_def Sale_save_def
      update_total_def items_def subtotal_def IntegerField_range_def
      user_has_permission_def is_admin_def concrete_defs Let_def)

section \<open>Removed medicines\<close>

text \<open>
  A line whose medicine does not exist makes the lookup raise \<open>DoesNotExist\<close> when the
  loop reaches it, and the store is left as it was received.
\<close>

lemma unknown_medicine_rolls_back:
  assumes req: "apply_request req"
    and fee: "IntegerField_range db (data_delivery_fee req)"
    and i: "i < length (cart_data req)"
    and pre: "within_stock db (take i (cart_data req))"
      "lines_in_range db (take i (cart_data req))" "stock_in_range db"
    and m: "medicines db (line_id (cart_data req ! i)) = None"
  shows "pos_view db req = (db, JsonResponse_error DoesNotExist)"
proof -
  let ?sid = "next_sale_pk db"
  have post: "req_method req = POST" "user_has_permission (req_user req) ''add_sale''"
    and na: "\<not> amending req"
    using req by (simp_all add: apply_request_def)
  from pre obtain db1 where db1: "sell_cart ?sid (loop_entry db req) (take i (cart_data req)) = Inr db1"
    using sell_cart_total [of "loop_entry db req" "take i (cart_data req)" ?sid]
      within_stock_cong [OF loop_entry_frame(1)]
      lines_in_range_cong [OF loop_entry_frame(3)]
      stock_in_range_cong [OF loop_entry_frame(1) loop_entry_frame(3)]
    by blast
  have "medicines db1 (line_id (cart_data req ! i)) = None"
    using sell_cart_Inr [OF db1] m by (simp add: loop_entry_frame)
  then have line: "sell_line ?sid db1 (cart_data req ! i) = Inl DoesNotExist"
    by (simp add: sell_line_def)
  have "cart_data req = take i (cart_data req) @ (cart_data req ! i) # drop (Suc i) (cart_data req)"
    using i by (simp add: id_take_nth_drop)
  then have "sell_cart ?sid (loop_entry db req) (cart_data req) =
      sell_cart ?sid (loop_entry db req)
        (take i (cart_data req) @ (cart_data req ! i) # drop (Suc i) (cart_data req))"
    by simp
  also have "\<dots> = Inl DoesNotExist"
    unfolding sell_cart_append using db1 line by simp
  finally show ?thesis
    using new_sale_atomic_block [OF na fee, of ] post by (simp add: pos_view_POST)
qed

text \<open>
  C5. The view looks a medicine up by its key alone and has no notion of a removed
  medicine. The manager, an admin, removes medicine A from the active inventory
  through \<open>MedicineDeleteView\<close>; the row is left as it was, and a cart that names the
  medicine is sold: 3 of the 10 leave the stock.
\<close>

theorem removed_medicine_is_sold:
  "medicines (MedicineDeleteView_post store_AB manager 1) 1 = Some medicine_A \<and>
   snd (pos_view (MedicineDeleteView_post store_AB manager 1)
          (sell pharmacist [line 1 3 500] 0 None)) = JsonResponse_success 1 \<and>
   map_option quantity
     (medicines (fst (pos_view (MedicineDeleteView_post store_AB manager 1)
                        (sell pharmacist [line 1 3 500] 0 None))) 1) = Some 7"
  by (simp add: pos_view_def atomic_block_def open_sale_def amending_def sell_line_def
      SaleItem_objects_create_def save_quantity_def Sale_objects_create_def Sale_save_def
      update_total_def items_def subtotal_def MedicineDeleteView_post_def IntegerField_range_def
      user_has_permission_def is_admin_def concrete_defs Let_def)

end
